theory Spec2Isabelle
  imports Main "HOL-Library.Word" "HOL-Library.Sublist" "HOL-Library.Multiset"
begin

unbundle bit_operations_syntax

section \<open>MIDI event classification and trace formatting (src/src/event.cpp)\<close>

subsection \<open>Data model\<close>

type_synonym u8 = "8 word"
type_synonym u32 = "32 word"
type_synonym i32 = "32 word"  \<comment> \<open>a C++ \<open>int\<close>, read with \<open>sint\<close>\<close>

text \<open>
  Modelled from the spec: the class declaration of \<open>Event\<close> lives in event.h, which is
  not among the sources. The fields and their types follow section 3 of the
  specification: \<open>type\<close>, \<open>note\<close> and \<open>velocity\<close> are bytes, \<open>meta\<close> is a flag, and
  \<open>tempo\<close>, \<open>totalTime\<close> and \<open>delta\<close> are integers. The three integers are only ever
  printed in decimal, never computed with, so they are kept as \<open>int\<close>.
\<close>

record event =
  type :: u8
  meta :: bool
  "note" :: u8
  velocity :: u8
  tempo :: int
  totalTime :: int
  delta :: int

text \<open>
  The 22 event-type constants used as \<open>case\<close> labels are declared in event.h as well.
  Their values are not visible, so the whole table is a parameter of every function that
  mentions a constant. The specification calls them byte values (section 4.1).
\<close>

record event_types =
  NOTE_OFF :: u8
  NOTE_ON :: u8
  KEY_PRESSURE :: u8
  CONTROL_CHANGE :: u8
  PROGRAM_CHANGE :: u8
  CHANNEL_PRESSURE :: u8
  PITCH_WHEEL_CHANGE :: u8
  SEQUENCE_NUMBER :: u8
  TEXT_EVENT :: u8
  COPYRIGHT :: u8
  SEQUENCE_NAME :: u8
  INSTRUMENT :: u8
  LYRIC :: u8
  MARKER_TEXT :: u8
  CUE_POINT :: u8
  MIDI_CHANNEL_PREFIX :: u8
  END_OF_TRACK :: u8
  TEMPO :: u8
  SMPTE_OFFSET :: u8
  TIME_SIGNATURE :: u8
  KEY_SIGNATURE :: u8
  SEQUENCER_SPECIFIC :: u8

text \<open>
  The labels of the \<open>switch\<close> in \<open>getEventName\<close>, in source order. C++ rejects a
  \<open>switch\<close> with two equal labels, so for the compiled program this list is distinct.
\<close>

definition name_labels :: "event_types \<Rightarrow> u8 list" where
  "name_labels c =
     [NOTE_OFF c, NOTE_ON c, KEY_PRESSURE c, CONTROL_CHANGE c, PROGRAM_CHANGE c,
      CHANNEL_PRESSURE c, PITCH_WHEEL_CHANGE c, SEQUENCE_NUMBER c, TEXT_EVENT c,
      COPYRIGHT c, SEQUENCE_NAME c, INSTRUMENT c, LYRIC c, MARKER_TEXT c, CUE_POINT c,
      MIDI_CHANNEL_PREFIX c, END_OF_TRACK c, TEMPO c, SMPTE_OFFSET c, TIME_SIGNATURE c,
      KEY_SIGNATURE c, SEQUENCER_SPECIFIC c]"

text \<open>
  The values of the Standard MIDI File format: one table that meets every assumption
  made below, used for the concrete instances.
\<close>

definition midi_types :: event_types where
  "midi_types =
     \<lparr>NOTE_OFF = 0x80, NOTE_ON = 0x90, KEY_PRESSURE = 0xA0, CONTROL_CHANGE = 0xB0,
      PROGRAM_CHANGE = 0xC0, CHANNEL_PRESSURE = 0xD0, PITCH_WHEEL_CHANGE = 0xE0,
      SEQUENCE_NUMBER = 0x00, TEXT_EVENT = 0x01, COPYRIGHT = 0x02, SEQUENCE_NAME = 0x03,
      INSTRUMENT = 0x04, LYRIC = 0x05, MARKER_TEXT = 0x06, CUE_POINT = 0x07,
      MIDI_CHANNEL_PREFIX = 0x20, END_OF_TRACK = 0x2F, TEMPO = 0x51, SMPTE_OFFSET = 0x54,
      TIME_SIGNATURE = 0x58, KEY_SIGNATURE = 0x59, SEQUENCER_SPECIFIC = 0x7F\<rparr>"

datatype error =
  read_outside_buffer  \<comment> \<open>\<open>file[pos + i]\<close> outside the caller's buffer\<close>
| out_of_range         \<comment> \<open>\<open>std::out_of_range\<close> thrown by \<open>std::string::replace\<close>\<close>

subsection \<open>Classification\<close>

text \<open>
  \<open>Event::getEventName\<close>. In \<open>type & 0xF0\<close> the byte is promoted to \<open>int\<close>; the
  \<open>switch\<close> becomes a chain of tests in the order of its labels.
\<close>

definition getEventName :: "event_types \<Rightarrow> event \<Rightarrow> string" where
  "getEventName c e =
     (if uint (type e) AND 0xF0 = 0xF0 then ''System message''
      else if type e = NOTE_OFF c then ''Note off''
      else if type e = NOTE_ON c then ''Note on''
      else if type e = KEY_PRESSURE c then ''Polyphonic key pressure''
      else if type e = CONTROL_CHANGE c then ''Control change''
      else if type e = PROGRAM_CHANGE c then ''Program change''
      else if type e = CHANNEL_PRESSURE c then ''Channel pressure''
      else if type e = PITCH_WHEEL_CHANGE c then ''Pitch wheel change''
      else if type e = SEQUENCE_NUMBER c then ''Sequence number''
      else if type e = TEXT_EVENT c then ''Text event''
      else if type e = COPYRIGHT c then ''Copyright notice''
      else if type e = SEQUENCE_NAME c then ''Sequence or track name''
      else if type e = INSTRUMENT c then ''Instrument name''
      else if type e = LYRIC c then ''Lyric text''
      else if type e = MARKER_TEXT c then ''Marker text''
      else if type e = CUE_POINT c then ''Cue point''
      else if type e = MIDI_CHANNEL_PREFIX c then ''MIDI channel prefix assignment''
      else if type e = END_OF_TRACK c then ''End of track''
      else if type e = TEMPO c then ''Tempo setting''
      else if type e = SMPTE_OFFSET c then ''SMPTE offset''
      else if type e = TIME_SIGNATURE c then ''Time signature''
      else if type e = KEY_SIGNATURE c then ''Key signature''
      else if type e = SEQUENCER_SPECIFIC c then ''Sequencer specific event''
      else ''Unknown event type'')"

text \<open>\<open>Event::getEventLength\<close>.\<close>

definition getEventLength :: "event_types \<Rightarrow> event \<Rightarrow> int" where
  "getEventLength c e =
     (if type e = KEY_PRESSURE c then 2
      else if type e = CONTROL_CHANGE c then 2
      else if type e = PROGRAM_CHANGE c then 1
      else if type e = CHANNEL_PRESSURE c then 1
      else if type e = PITCH_WHEEL_CHANGE c then 2
      else if type e = SEQUENCE_NUMBER c then 2
      else if type e = MIDI_CHANNEL_PREFIX c then 1
      else if type e = END_OF_TRACK c then 0
      else if type e = TEMPO c then 3
      else if type e = SMPTE_OFFSET c then 5
      else if type e = TIME_SIGNATURE c then 4
      else if type e = KEY_SIGNATURE c then 2
      else - 1)"

text \<open>
  \<open>std::to_string\<close> on an \<open>int\<close>: the decimal digits, most significant first, after a
  minus sign for a negative value.
\<close>

function decimal :: "nat \<Rightarrow> string" where
  "decimal n =
     (if n < 10 then [''0123456789'' ! n]
      else decimal (n div 10) @ [''0123456789'' ! (n mod 10)])"
  by pat_completeness auto
termination
  by (relation "measure (\<lambda>n. n)") auto

definition to_string :: "int \<Rightarrow> string" where
  "to_string i = (if i < 0 then CHR ''-'' # decimal (nat (- i)) else decimal (nat i))"

text \<open>
  \<open>Event::getNoteName\<close>. The byte \<open>note\<close> is promoted to \<open>int\<close> before \<open>%\<close> and \<open>/\<close>;
  both operands are non-negative, where C++ and HOL agree on quotient and remainder.
  The \<open>switch\<close> has no default: a remainder outside 0..11 would append nothing.
\<close>

definition getNoteName :: "event \<Rightarrow> string" where
  "getNoteName e =
     (let k = uint (note e) mod 12;
          noteName =
            (if k = 0 then ''C''
             else if k = 1 then ''C#''
             else if k = 2 then ''D''
             else if k = 3 then ''D#''
             else if k = 4 then ''E''
             else if k = 5 then ''F''
             else if k = 6 then ''F#''
             else if k = 7 then ''G''
             else if k = 8 then ''G#''
             else if k = 9 then ''A''
             else if k = 10 then ''A#''
             else if k = 11 then ''B''
             else '''')
      in noteName @ to_string (uint (note e) div 12 - 1))"

text \<open>
  \<open>Event::stripChannel\<close> (\<open>type &= 0xF0\<close>: promote, mask, convert back to a byte) and
  \<open>Event::getChannel\<close> (\<open>type & 0x0F\<close>, returned as \<open>int\<close>).
\<close>

definition stripChannel :: "event \<Rightarrow> event" where
  "stripChannel e = e\<lparr>type := word_of_int (uint (type e) AND 0xF0)\<rparr>"

definition getChannel :: "event \<Rightarrow> int" where
  "getChannel e = uint (type e) AND 0x0F"

text \<open>
  The member functions as operations on the object: each call returns its value together
  with the object as the call leaves it. Only \<open>stripChannel\<close> contains an assignment.
\<close>

datatype operation = GetEventName | GetEventLength | GetNoteName | GetChannel | StripChannel

datatype returned = Text string | Number int | Nothing

fun call :: "event_types \<Rightarrow> operation \<Rightarrow> event \<Rightarrow> returned \<times> event" where
  "call c GetEventName e = (Text (getEventName c e), e)"
| "call c GetEventLength e = (Number (getEventLength c e), e)"
| "call c GetNoteName e = (Text (getNoteName e), e)"
| "call c GetChannel e = (Number (getChannel e), e)"
| "call c StripChannel e = (Nothing, stripChannel e)"

subsection \<open>Trace formatting\<close>

text \<open>
  \<open>Event::formatColumn\<close>: the \<open>while\<close> loop appends one space per round. The test
  \<open>width - (int)s.length() > 0\<close> is computed in 32-bit \<open>int\<close>: the cast keeps the low
  32 bits of the length, the subtraction wraps around in two's complement (what the
  compiled program does where C++ leaves the overflow undefined), and the comparison is
  signed.
\<close>

function formatColumn :: "string \<Rightarrow> i32 \<Rightarrow> string" where
  "formatColumn s width =
     (if sint (width - word_of_nat (length s)) > 0 then formatColumn (s @ '' '') width
      else s)"
  by pat_completeness auto
termination
proof (relation "measure (\<lambda>(s, width). nat (sint (width - word_of_nat (length s))))")
  show "wf (measure (\<lambda>(s, width :: i32). nat (sint (width - word_of_nat (length s)))))"
    by simp
next
  fix s :: string and width :: i32
  let ?d = "width - word_of_nat (length s)"
  assume pos: "0 < sint ?d"
  have "sint ?d < 2 ^ 31" using sint_lt [of ?d] by simp
  with pos have "signed_take_bit 31 (sint ?d - 1) = sint ?d - 1"
    by (intro signed_take_bit_int_eq_self) simp_all
  then have "sint (?d - 1) = sint ?d - 1" by (simp add: sint_word_ariths)
  moreover have "width - word_of_nat (length (s @ '' '')) = ?d - 1" by simp
  ultimately have "sint (width - word_of_nat (length (s @ '' ''))) = sint ?d - 1"
    by (simp only:)
  with pos show "((s @ '' '', width), (s, width)) \<in>
      measure (\<lambda>(s, width). nat (sint (width - word_of_nat (length s))))"
    by simp
qed

text \<open>
  Modelled from the spec: \<open>Log::to_hex_string(byte, false)\<close>. Its body is in log.cpp, which
  is not among the sources. Section 4.2 of the specification: each byte is rendered as two
  hex digits with no leading \<open>0x\<close>; section 8 shows the digits in lower case
  (\<open>90 3c 64\<close>).
\<close>

definition to_hex_byte :: "u8 \<Rightarrow> string" where
  "to_hex_byte b =
     [''0123456789abcdef'' ! (unat b div 16), ''0123456789abcdef'' ! (unat b mod 16)]"

text \<open>
  Reading \<open>file[k]\<close>: the caller's buffer is a list of bytes; an index outside it is
  undefined behaviour in C++ and an error value here.
\<close>

definition read_byte :: "u8 list \<Rightarrow> int \<Rightarrow> error + u8" where
  "read_byte file k =
     (if 0 \<le> k \<and> k < int (length file) then Inr (file ! nat k) else Inl read_outside_buffer)"

text \<open>
  \<open>std::string::replace(pos, n, str)\<close>: throws when \<open>pos\<close> is beyond the end,
  otherwise replaces the \<open>min n (size - pos)\<close> characters from \<open>pos\<close>.
\<close>

definition string_replace :: "string \<Rightarrow> nat \<Rightarrow> nat \<Rightarrow> string \<Rightarrow> error + string" where
  "string_replace s pos n str =
     (if length s < pos then Inl out_of_range
      else Inr (take pos s @ str @ drop (pos + min n (length s - pos)) s))"

text \<open>
  \<open>Event::print\<close>, lines 89 to 93: the loop \<open>for (int i = 0; i < len; i++)\<close> that builds
  \<open>content\<close>, with the loop variable and the string so far as arguments.
\<close>

function print_loop :: "u8 list \<Rightarrow> int \<Rightarrow> int \<Rightarrow> int \<Rightarrow> string \<Rightarrow> error + string" where
  "print_loop file pos len i content =
     (if i < len then
        (case read_byte file (pos + i) of
           Inl err \<Rightarrow> Inl err
         | Inr b \<Rightarrow> print_loop file pos len (i + 1) (content @ to_hex_byte b @ '' ''))
      else Inr content)"
  by pat_completeness auto
termination
  by (relation "measure (\<lambda>(file, pos, len, i, content). nat (len - i))") auto

definition print_content :: "u8 list \<Rightarrow> int \<Rightarrow> int \<Rightarrow> error + string" where
  "print_content file pos len = print_loop file pos len 0 []"

text \<open>
  Lines 94 to 96. \<open>content.length() - 34\<close> is unsigned arithmetic; under the guard the
  length exceeds 39, so the subtraction does not wrap.
\<close>

definition print_truncate :: "string \<Rightarrow> error + string" where
  "print_truncate content =
     (if length content > 39 then string_replace content 27 (length content - 34) ''[...]''
      else Inr content)"

text \<open>
  Lines 87 and 97 to 119: the row, given the hex dump after truncation. The one-argument
  \<open>Log::to_hex_string(pos)\<close> converts \<open>pos\<close> to \<open>uint32_t\<close>; its body is in log.cpp and
  the specification fixes no format for it, so it is the parameter \<open>to_hex_offset\<close>.
\<close>

definition print_row :: "event_types \<Rightarrow> (u32 \<Rightarrow> string) \<Rightarrow> event \<Rightarrow> int \<Rightarrow> string \<Rightarrow> string" where
  "print_row c to_hex_offset e pos content =
     formatColumn (to_hex_offset (word_of_int pos)) 6 @ '' | '' @
     formatColumn content 39 @ ''| '' @
     formatColumn (to_string (totalTime e)) 6 @ '' | '' @
     formatColumn (to_string (delta e)) 6 @ '' | '' @
     formatColumn (getEventName c e) 25 @ '' | '' @
     (if meta e then ''          ''
      else formatColumn (''Channel '' @ to_string (getChannel e)) 10) @
     '' | '' @
     (if type e = NOTE_ON c \<or> type e = NOTE_OFF c then
        formatColumn (''Note '' @ getNoteName e) 9 @
        ''at velocity '' @ to_string (uint (velocity e))
      else if type e = TEMPO c then
        formatColumn (to_string (tempo e)) 6 @ '' us per quarter note''
      else '''')"

text \<open>
  \<open>Event::print\<close>: the result is the row handed to \<open>Log::debug\<close>, or the error that
  ends the call before.
\<close>

definition print ::
  "event_types \<Rightarrow> (u32 \<Rightarrow> string) \<Rightarrow> event \<Rightarrow> int \<Rightarrow> u8 list \<Rightarrow> int \<Rightarrow> error + string" where
  "print c to_hex_offset e pos file len =
     (case print_content file pos len of
        Inl err \<Rightarrow> Inl err
      | Inr content \<Rightarrow>
          (case print_truncate content of
             Inl err \<Rightarrow> Inl err
           | Inr shown \<Rightarrow> Inr (print_row c to_hex_offset e pos shown)))"

subsection \<open>The two switches as tables, and the specification's note names\<close>

text \<open>
  The labels of the \<open>switch\<close> in \<open>getEventLength\<close> in source order, and the ten
  labels of \<open>getEventName\<close> that \<open>getEventLength\<close> does not mention.
\<close>

definition length_labels :: "event_types \<Rightarrow> u8 list" where
  "length_labels c =
     [KEY_PRESSURE c, CONTROL_CHANGE c, PROGRAM_CHANGE c, CHANNEL_PRESSURE c,
      PITCH_WHEEL_CHANGE c, SEQUENCE_NUMBER c, MIDI_CHANNEL_PREFIX c, END_OF_TRACK c,
      TEMPO c, SMPTE_OFFSET c, TIME_SIGNATURE c, KEY_SIGNATURE c]"

definition unsized_labels :: "event_types \<Rightarrow> u8 list" where
  "unsized_labels c =
     [NOTE_OFF c, NOTE_ON c, TEXT_EVENT c, COPYRIGHT c, SEQUENCE_NAME c, INSTRUMENT c,
      LYRIC c, MARKER_TEXT c, CUE_POINT c, SEQUENCER_SPECIFIC c]"

text \<open>Each \<open>case\<close> line of the two switches as a pair of label and returned value.\<close>

definition name_table :: "event_types \<Rightarrow> (u8 \<times> string) list" where
  "name_table c =
     [(NOTE_OFF c, ''Note off''), (NOTE_ON c, ''Note on''),
      (KEY_PRESSURE c, ''Polyphonic key pressure''), (CONTROL_CHANGE c, ''Control change''),
      (PROGRAM_CHANGE c, ''Program change''), (CHANNEL_PRESSURE c, ''Channel pressure''),
      (PITCH_WHEEL_CHANGE c, ''Pitch wheel change''), (SEQUENCE_NUMBER c, ''Sequence number''),
      (TEXT_EVENT c, ''Text event''), (COPYRIGHT c, ''Copyright notice''),
      (SEQUENCE_NAME c, ''Sequence or track name''), (INSTRUMENT c, ''Instrument name''),
      (LYRIC c, ''Lyric text''), (MARKER_TEXT c, ''Marker text''), (CUE_POINT c, ''Cue point''),
      (MIDI_CHANNEL_PREFIX c, ''MIDI channel prefix assignment''),
      (END_OF_TRACK c, ''End of track''), (TEMPO c, ''Tempo setting''),
      (SMPTE_OFFSET c, ''SMPTE offset''), (TIME_SIGNATURE c, ''Time signature''),
      (KEY_SIGNATURE c, ''Key signature''), (SEQUENCER_SPECIFIC c, ''Sequencer specific event'')]"

definition length_table :: "event_types \<Rightarrow> (u8 \<times> int) list" where
  "length_table c =
     [(KEY_PRESSURE c, 2), (CONTROL_CHANGE c, 2), (PROGRAM_CHANGE c, 1),
      (CHANNEL_PRESSURE c, 1), (PITCH_WHEEL_CHANGE c, 2), (SEQUENCE_NUMBER c, 2),
      (MIDI_CHANNEL_PREFIX c, 1), (END_OF_TRACK c, 0), (TEMPO c, 3), (SMPTE_OFFSET c, 5),
      (TIME_SIGNATURE c, 4), (KEY_SIGNATURE c, 2)]"

text \<open>
  The note name in the specification's words (section 4.1): the pitch class \<open>note % 12\<close>
  from the list of sharps, then the octave \<open>note / 12 - 1\<close> in decimal.
\<close>

definition sharps :: "string list" where
  "sharps = [''C'', ''C#'', ''D'', ''D#'', ''E'', ''F'', ''F#'', ''G'', ''G#'', ''A'', ''A#'', ''B'']"

definition note_name_spec :: "nat \<Rightarrow> string" where
  "note_name_spec n = sharps ! (n mod 12) @ to_string (int (n div 12) - 1)"

declare decimal.simps [simp del]
declare formatColumn.simps [simp del]
declare print_loop.simps [simp del]

section \<open>Properties\<close>

subsection \<open>Bit masks on the status byte\<close>

lemma hi_nibble_word: "(uint t AND 0xF0 = 0xF0) = (t AND 0xF0 = (0xF0::u8))"
proof -
  have "uint (t AND 0xF0) = uint t AND 0xF0" by (simp add: uint_and)
  moreover have "uint (0xF0::u8) = 0xF0" by simp
  ultimately show ?thesis by (metis word_uint_eq_iff)
qed

lemma low_nibble_mod: "(x::int) AND 0x0F = x mod 16"
proof -
  have "x AND mask 4 = x mod 2 ^ 4"
    by (simp only: take_bit_eq_mask [symmetric] take_bit_eq_mod)
  moreover have "mask 4 = (15::int)" by (simp add: mask_eq_exp_minus_1)
  ultimately show ?thesis by simp
qed

lemma stripChannel_type: "type (stripChannel e) = type e AND 0xF0"
proof -
  have "word_of_int (uint (type e) AND 0xF0) = (word_of_int (uint (type e AND 0xF0)) :: u8)"
    by (simp add: uint_and)
  then show ?thesis by (simp add: stripChannel_def)
qed

subsection \<open>The switches\<close>

lemma name_table_keys: "map fst (name_table c) = name_labels c"
  by (simp add: name_table_def name_labels_def)

lemma length_table_keys: "map fst (length_table c) = length_labels c"
  by (simp add: length_table_def length_labels_def)

lemma getEventName_lookup:
  "getEventName c e =
     (if type e AND 0xF0 = 0xF0 then ''System message''
      else case map_of (name_table c) (type e) of
             Some s \<Rightarrow> s | None \<Rightarrow> ''Unknown event type'')"
  by (simp add: getEventName_def hi_nibble_word name_table_def)

lemma getEventLength_lookup:
  "getEventLength c e =
     (case map_of (length_table c) (type e) of Some n \<Rightarrow> n | None \<Rightarrow> - 1)"
  by (simp add: getEventLength_def length_table_def)

lemma name_of_label:
  assumes d: "distinct (name_labels c)"
    and h: "list_all (\<lambda>k. k AND 0xF0 \<noteq> 0xF0) (name_labels c)"
    and m: "(k, s) \<in> set (name_table c)"
  shows "getEventName c (e\<lparr>type := k\<rparr>) = s"
proof -
  from d have "distinct (map fst (name_table c))" by (simp only: name_table_keys)
  from this m have look: "map_of (name_table c) k = Some s" by (rule map_of_is_SomeI)
  from m have "k \<in> set (map fst (name_table c))" by force
  then have "k \<in> set (name_labels c)" by (simp only: name_table_keys)
  with h have "k AND 0xF0 \<noteq> 0xF0" by (simp add: list_all_iff)
  with look show ?thesis by (simp add: getEventName_lookup)
qed

lemma labels_mset: "mset (name_labels c) = mset (unsized_labels c @ length_labels c)"
  by (simp add: name_labels_def unsized_labels_def length_labels_def)

lemma labels_split:
  assumes "distinct (name_labels c)"
  shows "distinct (length_labels c)"
    and "set (unsized_labels c) \<inter> set (length_labels c) = {}"
proof -
  from assms labels_mset [of c] have "distinct (unsized_labels c @ length_labels c)"
    by (metis mset_eq_imp_distinct_iff)
  then show "distinct (length_labels c)"
    and "set (unsized_labels c) \<inter> set (length_labels c) = {}"
    by (simp_all only: distinct_append)
qed

lemma length_of_label:
  assumes d: "distinct (name_labels c)" and m: "(k, n) \<in> set (length_table c)"
  shows "getEventLength c (e\<lparr>type := k\<rparr>) = n"
proof -
  from labels_split(1) [OF d] have "distinct (map fst (length_table c))"
    by (simp only: length_table_keys)
  from this m have "map_of (length_table c) k = Some n" by (rule map_of_is_SomeI)
  then show ?thesis by (simp add: getEventLength_lookup)
qed

lemma length_untabulated:
  assumes "type e \<notin> set (length_labels c)"
  shows "getEventLength c e = - 1"
proof -
  from assms have "type e \<notin> set (map fst (length_table c))"
    by (simp add: length_table_keys)
  then have "type e \<notin> fst ` set (length_table c)" by simp
  then have "map_of (length_table c) (type e) = None"
    by (simp add: map_of_eq_None_iff)
  then show ?thesis by (simp add: getEventLength_lookup)
qed

lemma length_of_unsized:
  assumes d: "distinct (name_labels c)" and m: "k \<in> set (unsized_labels c)"
  shows "getEventLength c (e\<lparr>type := k\<rparr>) = - 1"
proof -
  from labels_split(2) [OF d] m have "k \<notin> set (length_labels c)" by blast
  then show ?thesis by (simp add: length_untabulated)
qed

lemma midi_types_distinct: "distinct (name_labels midi_types)"
  by (simp add: name_labels_def midi_types_def)

lemma midi_types_not_system:
  "list_all (\<lambda>k. k AND 0xF0 \<noteq> 0xF0) (name_labels midi_types)"
  by (simp add: name_labels_def midi_types_def)

text \<open>
  C1. A status byte with \<open>type & 0xF0 == 0xF0\<close> is named "System message" whatever its
  low nibble and whatever the table of constants holds, so also when the byte equals one
  of the constants; a byte with another high nibble that equals none of the 22 constants
  is named "Unknown event type".
\<close>

theorem getEventName_system_or_unknown:
  "(type e AND 0xF0 = 0xF0 \<longrightarrow> getEventName c e = ''System message'') \<and>
   (type e AND 0xF0 \<noteq> 0xF0 \<and> type e \<notin> set (name_labels c) \<longrightarrow>
      getEventName c e = ''Unknown event type'')"
  by (simp add: getEventName_def hi_nibble_word name_labels_def)

theorem getEventName_system_or_unknown_witness:
  "((0xF3::u8) AND 0xF0 = 0xF0 \<and>
    getEventName (midi_types\<lparr>END_OF_TRACK := 0xF3\<rparr>)
      \<lparr>type = 0xF3, meta = False, note = 0, velocity = 0, tempo = 0, totalTime = 0,
       delta = 0\<rparr> = ''System message'') \<and>
   ((0x42::u8) AND 0xF0 \<noteq> 0xF0 \<and> (0x42::u8) \<notin> set (name_labels midi_types) \<and>
    getEventName midi_types
      \<lparr>type = 0x42, meta = True, note = 0, velocity = 0, tempo = 0, totalTime = 0,
       delta = 0\<rparr> = ''Unknown event type'')"
  using
    getEventName_system_or_unknown [of
      "\<lparr>type = 0xF3, meta = False, note = 0, velocity = 0, tempo = 0, totalTime = 0,
        delta = 0\<rparr>" "midi_types\<lparr>END_OF_TRACK := 0xF3\<rparr>"]
    getEventName_system_or_unknown [of
      "\<lparr>type = 0x42, meta = True, note = 0, velocity = 0, tempo = 0, totalTime = 0,
        delta = 0\<rparr>" midi_types]
  by (simp add: name_labels_def midi_types_def)

text \<open>
  C2. Each of the 22 event-type constants is mapped to its display name, NOTE_ON to
  "Note on" and NOTE_OFF to "Note off" among them. The constants come from event.h; what
  is used of them is that they are pairwise different, as the labels of one \<open>switch\<close>
  are, and that none has the high nibble \<open>0xF\<close> of a system message.
\<close>

theorem getEventName_table:
  assumes "distinct (name_labels c)"
    and "list_all (\<lambda>k. k AND 0xF0 \<noteq> 0xF0) (name_labels c)"
  shows
    "getEventName c (e\<lparr>type := NOTE_OFF c\<rparr>) = ''Note off'' \<and>
     getEventName c (e\<lparr>type := NOTE_ON c\<rparr>) = ''Note on'' \<and>
     getEventName c (e\<lparr>type := KEY_PRESSURE c\<rparr>) = ''Polyphonic key pressure'' \<and>
     getEventName c (e\<lparr>type := CONTROL_CHANGE c\<rparr>) = ''Control change'' \<and>
     getEventName c (e\<lparr>type := PROGRAM_CHANGE c\<rparr>) = ''Program change'' \<and>
     getEventName c (e\<lparr>type := CHANNEL_PRESSURE c\<rparr>) = ''Channel pressure'' \<and>
     getEventName c (e\<lparr>type := PITCH_WHEEL_CHANGE c\<rparr>) = ''Pitch wheel change'' \<and>
     getEventName c (e\<lparr>type := SEQUENCE_NUMBER c\<rparr>) = ''Sequence number'' \<and>
     getEventName c (e\<lparr>type := TEXT_EVENT c\<rparr>) = ''Text event'' \<and>
     getEventName c (e\<lparr>type := COPYRIGHT c\<rparr>) = ''Copyright notice'' \<and>
     getEventName c (e\<lparr>type := SEQUENCE_NAME c\<rparr>) = ''Sequence or track name'' \<and>
     getEventName c (e\<lparr>type := INSTRUMENT c\<rparr>) = ''Instrument name'' \<and>
     getEventName c (e\<lparr>type := LYRIC c\<rparr>) = ''Lyric text'' \<and>
     getEventName c (e\<lparr>type := MARKER_TEXT c\<rparr>) = ''Marker text'' \<and>
     getEventName c (e\<lparr>type := CUE_POINT c\<rparr>) = ''Cue point'' \<and>
     getEventName c (e\<lparr>type := MIDI_CHANNEL_PREFIX c\<rparr>) = ''MIDI channel prefix assignment'' \<and>
     getEventName c (e\<lparr>type := END_OF_TRACK c\<rparr>) = ''End of track'' \<and>
     getEventName c (e\<lparr>type := TEMPO c\<rparr>) = ''Tempo setting'' \<and>
     getEventName c (e\<lparr>type := SMPTE_OFFSET c\<rparr>) = ''SMPTE offset'' \<and>
     getEventName c (e\<lparr>type := TIME_SIGNATURE c\<rparr>) = ''Time signature'' \<and>
     getEventName c (e\<lparr>type := KEY_SIGNATURE c\<rparr>) = ''Key signature'' \<and>
     getEventName c (e\<lparr>type := SEQUENCER_SPECIFIC c\<rparr>) = ''Sequencer specific event''"
  by (intro conjI name_of_label [OF assms]) (simp_all add: name_table_def)

theorem getEventName_table_witness:
  "distinct (name_labels midi_types) \<and>
   list_all (\<lambda>k. k AND 0xF0 \<noteq> 0xF0) (name_labels midi_types) \<and>
   getEventName midi_types
     \<lparr>type = 0x80, meta = False, note = 60, velocity = 0, tempo = 0, totalTime = 0,
      delta = 0\<rparr> = ''Note off'' \<and>
   getEventName midi_types
     \<lparr>type = 0x90, meta = False, note = 60, velocity = 0, tempo = 0, totalTime = 0,
      delta = 0\<rparr> = ''Note on'' \<and>
   getEventName midi_types
     \<lparr>type = 0x2F, meta = False, note = 60, velocity = 0, tempo = 0, totalTime = 0,
      delta = 0\<rparr> = ''End of track''"
  using
    getEventName_table [OF midi_types_distinct midi_types_not_system, of
      "\<lparr>type = 0, meta = False, note = 60, velocity = 0, tempo = 0, totalTime = 0,
        delta = 0\<rparr>"]
    midi_types_distinct midi_types_not_system
  by (simp add: midi_types_def)

text \<open>
  C3. \<open>getEventLength\<close> returns the twelve tabulated lengths for their constants and
  \<open>-1\<close> for every type that is none of the twelve, NOTE_ON, NOTE_OFF and TEXT_EVENT
  among them. The constants are pairwise different, as the labels of the \<open>switch\<close> in
  \<open>getEventName\<close> are.
\<close>

theorem getEventLength_table:
  assumes "distinct (name_labels c)"
  shows
    "getEventLength c (e\<lparr>type := KEY_PRESSURE c\<rparr>) = 2 \<and>
     getEventLength c (e\<lparr>type := CONTROL_CHANGE c\<rparr>) = 2 \<and>
     getEventLength c (e\<lparr>type := PROGRAM_CHANGE c\<rparr>) = 1 \<and>
     getEventLength c (e\<lparr>type := CHANNEL_PRESSURE c\<rparr>) = 1 \<and>
     getEventLength c (e\<lparr>type := PITCH_WHEEL_CHANGE c\<rparr>) = 2 \<and>
     getEventLength c (e\<lparr>type := SEQUENCE_NUMBER c\<rparr>) = 2 \<and>
     getEventLength c (e\<lparr>type := MIDI_CHANNEL_PREFIX c\<rparr>) = 1 \<and>
     getEventLength c (e\<lparr>type := END_OF_TRACK c\<rparr>) = 0 \<and>
     getEventLength c (e\<lparr>type := TEMPO c\<rparr>) = 3 \<and>
     getEventLength c (e\<lparr>type := SMPTE_OFFSET c\<rparr>) = 5 \<and>
     getEventLength c (e\<lparr>type := TIME_SIGNATURE c\<rparr>) = 4 \<and>
     getEventLength c (e\<lparr>type := KEY_SIGNATURE c\<rparr>) = 2 \<and>
     (type e \<notin> set (length_labels c) \<longrightarrow> getEventLength c e = - 1) \<and>
     getEventLength c (e\<lparr>type := NOTE_ON c\<rparr>) = - 1 \<and>
     getEventLength c (e\<lparr>type := NOTE_OFF c\<rparr>) = - 1 \<and>
     getEventLength c (e\<lparr>type := TEXT_EVENT c\<rparr>) = - 1"
proof -
  have tab: "\<And>k n. (k, n) \<in> set (length_table c) \<Longrightarrow> getEventLength c (e\<lparr>type := k\<rparr>) = n"
    using assms by (rule length_of_label)
  have rest: "\<And>k. k \<in> set (unsized_labels c) \<Longrightarrow> getEventLength c (e\<lparr>type := k\<rparr>) = - 1"
    using assms by (rule length_of_unsized)
  have other: "type e \<notin> set (length_labels c) \<longrightarrow> getEventLength c e = - 1"
    by (simp add: length_untabulated)
  show ?thesis
    by (intro conjI other)
      (simp_all add: tab rest length_table_def unsized_labels_def)
qed

theorem getEventLength_table_witness:
  "distinct (name_labels midi_types) \<and>
   getEventLength midi_types
     \<lparr>type = 0x51, meta = True, note = 0, velocity = 0, tempo = 500000, totalTime = 0,
      delta = 0\<rparr> = 3 \<and>
   (0x42::u8) \<notin> set (length_labels midi_types) \<and>
   getEventLength midi_types
     \<lparr>type = 0x42, meta = True, note = 0, velocity = 0, tempo = 500000, totalTime = 0,
      delta = 0\<rparr> = - 1 \<and>
   getEventLength midi_types
     \<lparr>type = 0x90, meta = True, note = 0, velocity = 0, tempo = 500000, totalTime = 0,
      delta = 0\<rparr> = - 1"
  using
    getEventLength_table [OF midi_types_distinct, of
      "\<lparr>type = 0x42, meta = True, note = 0, velocity = 0, tempo = 500000, totalTime = 0,
        delta = 0\<rparr>"]
    midi_types_distinct
  by (simp add: midi_types_def length_labels_def)

subsection \<open>Note names\<close>

lemma small_cases:
  fixes k :: int
  assumes "0 \<le> k" "k < 12"
  shows "k \<in> {0, 1, 2, 3, 4, 5, 6, 7, 8, 9, 10, 11}"
  using assms by simp presburger

lemma getNoteName_sharps:
  "getNoteName e =
     sharps ! nat (uint (note e) mod 12) @ to_string (uint (note e) div 12 - 1)"
proof -
  define k where "k = uint (note e) mod 12"
  have "0 \<le> k" "k < 12" by (simp_all add: k_def)
  then have "k \<in> {0, 1, 2, 3, 4, 5, 6, 7, 8, 9, 10, 11}" by (rule small_cases)
  then show ?thesis
    unfolding getNoteName_def Let_def k_def [symmetric] sharps_def by auto
qed

text \<open>
  C4. For every note byte the name is the entry \<open>note % 12\<close> of the list of sharps
  followed by the decimal of \<open>note / 12 - 1\<close>: "C4" for 60, "A4" for 69, "C-1" for 0
  and "C0" for 12.
\<close>

theorem getNoteName_spec:
  "getNoteName e = note_name_spec (unat (note e)) \<and>
   getNoteName (e\<lparr>note := 60\<rparr>) = ''C4'' \<and>
   getNoteName (e\<lparr>note := 69\<rparr>) = ''A4'' \<and>
   getNoteName (e\<lparr>note := 0\<rparr>) = ''C-1'' \<and>
   getNoteName (e\<lparr>note := 12\<rparr>) = ''C0''"
proof -
  have "uint (note e) = int (unat (note e))" by simp
  then have "getNoteName e = note_name_spec (unat (note e))"
    by (simp add: getNoteName_sharps note_name_spec_def nat_mod_distrib zdiv_int
        flip: zmod_int)
  moreover have "getNoteName (e\<lparr>note := 60\<rparr>) = ''C4''"
    by (simp add: getNoteName_def to_string_def decimal.simps)
  moreover have "getNoteName (e\<lparr>note := 69\<rparr>) = ''A4''"
    by (simp add: getNoteName_def to_string_def decimal.simps)
  moreover have "getNoteName (e\<lparr>note := 0\<rparr>) = ''C-1''"
    by (simp add: getNoteName_def to_string_def decimal.simps)
  moreover have "getNoteName (e\<lparr>note := 12\<rparr>) = ''C0''"
    by (simp add: getNoteName_def to_string_def decimal.simps)
  ultimately show ?thesis by simp
qed

subsection \<open>Channel\<close>

text \<open>
  C6. \<open>getChannel\<close> returns \<open>type & 0x0F\<close>, the low nibble of the type byte, and
  \<open>stripChannel\<close> sets the type to \<open>type & 0xF0\<close>; for the type \<open>0x91\<close> the channel is
  1 and the stripped type is \<open>0x90\<close>.
\<close>

theorem channel_nibbles:
  "getChannel e = uint (type e AND 0x0F) \<and>
   getChannel e = uint (type e) mod 16 \<and>
   type (stripChannel e) = type e AND 0xF0 \<and>
   getChannel (e\<lparr>type := 0x91\<rparr>) = 1 \<and>
   type (stripChannel (e\<lparr>type := 0x91\<rparr>)) = 0x90"
proof -
  have "getChannel e = uint (type e AND 0x0F)"
    by (simp add: getChannel_def uint_and)
  moreover have "getChannel e = uint (type e) mod 16"
    by (simp only: getChannel_def low_nibble_mod)
  moreover have "getChannel (e\<lparr>type := 0x91\<rparr>) = 1"
    by (simp add: getChannel_def)
  moreover have "type (stripChannel (e\<lparr>type := 0x91\<rparr>)) = 0x90"
    by (simp add: stripChannel_def)
  ultimately show ?thesis by (simp only: stripChannel_type simp_thms)
qed

text \<open>
  C9. \<open>stripChannel\<close> changes the field \<open>type\<close> and nothing else: \<open>meta\<close>, \<open>note\<close>,
  \<open>velocity\<close>, \<open>tempo\<close>, \<open>totalTime\<close> and \<open>delta\<close> keep their values. A call of
  \<open>getEventName\<close>, \<open>getEventLength\<close>, \<open>getNoteName\<close> or \<open>getChannel\<close> leaves the
  object as it was.
\<close>

theorem classification_frame:
  "stripChannel e = e\<lparr>type := type e AND 0xF0\<rparr> \<and>
   meta (stripChannel e) = meta e \<and>
   note (stripChannel e) = note e \<and>
   velocity (stripChannel e) = velocity e \<and>
   tempo (stripChannel e) = tempo e \<and>
   totalTime (stripChannel e) = totalTime e \<and>
   delta (stripChannel e) = delta e \<and>
   snd (call c StripChannel e) = stripChannel e \<and>
   snd (call c GetEventName e) = e \<and>
   snd (call c GetEventLength e) = e \<and>
   snd (call c GetNoteName e) = e \<and>
   snd (call c GetChannel e) = e"
proof -
  have "stripChannel e = e\<lparr>type := type (stripChannel e)\<rparr>"
    by (simp add: stripChannel_def)
  then have "stripChannel e = e\<lparr>type := type e AND 0xF0\<rparr>"
    by (simp only: stripChannel_type)
  moreover have "meta (stripChannel e) = meta e" "note (stripChannel e) = note e"
    "velocity (stripChannel e) = velocity e" "tempo (stripChannel e) = tempo e"
    "totalTime (stripChannel e) = totalTime e" "delta (stripChannel e) = delta e"
    by (simp_all add: stripChannel_def)
  ultimately show ?thesis by simp
qed

subsection \<open>Padding a column\<close>

lemma formatColumn_eq:
  "formatColumn s w = s @ replicate (nat (sint (w - word_of_nat (length s)))) (CHR '' '')"
proof (induction s w rule: formatColumn.induct)
  case (1 s width)
  let ?d = "width - word_of_nat (length s)"
  show ?case
  proof (cases "sint ?d > 0")
    case True
    have "sint ?d < 2 ^ 31" using sint_lt [of ?d] by simp
    with True have "signed_take_bit 31 (sint ?d - 1) = sint ?d - 1"
      by (intro signed_take_bit_int_eq_self) simp_all
    then have "sint (?d - 1) = sint ?d - 1" by (simp add: sint_word_ariths)
    moreover have "width - word_of_nat (length (s @ '' '')) = ?d - 1" by simp
    ultimately have "sint (width - word_of_nat (length (s @ '' ''))) = sint ?d - 1"
      by (simp only:)
    with True have "nat (sint ?d) = Suc (nat (sint (width - word_of_nat (length (s @ '' '')))))"
      by simp
    with True "1" show ?thesis
      by (subst formatColumn.simps) (simp add: replicate_append_same del: length_append)
  next
    case False
    then show ?thesis by (subst formatColumn.simps) simp
  qed
qed

text \<open>Where the 32-bit subtraction does not overflow it is the subtraction of integers.\<close>

lemma sint_diff_length:
  assumes "int (length s) < 2 ^ 31" and "- (2 ^ 31) \<le> sint (w::i32) - int (length s)"
  shows "sint (w - word_of_nat (length s)) = sint w - int (length s)"
proof -
  from assms(1) have "signed_take_bit 31 (int (length s)) = int (length s)"
    by (intro signed_take_bit_int_eq_self) simp_all
  then have l: "sint (word_of_nat (length s) :: i32) = int (length s)"
    by (simp add: signed_of_nat)
  have "sint w < 2 ^ 31" using sint_lt [of w] by simp
  with assms l have "signed_take_bit 31 (sint w - int (length s)) = sint w - int (length s)"
    by (intro signed_take_bit_int_eq_self) simp_all
  with l show ?thesis by (simp add: sint_word_ariths)
qed

text \<open>
  C7. Stated for every width, the property fails at the edge of the 32-bit range: for width
  \<open>-2147483648\<close> the text \<open>"x"\<close> is already beyond the width, yet the subtraction wraps
  to \<open>2147483647\<close> and \<open>formatColumn\<close> pads the text to \<open>2^31\<close> characters.
\<close>

theorem formatColumn_pads_counterexample:
  "sint (0x80000000 :: i32) \<le> int (length ''x'') \<and>
   formatColumn ''x'' 0x80000000 \<noteq> ''x'' \<and>
   length (formatColumn ''x'' 0x80000000) = 2147483648"
proof -
  have l: "length (formatColumn ''x'' 0x80000000) = 2147483648"
    by (simp add: formatColumn_eq)
  then have "formatColumn ''x'' 0x80000000 \<noteq> ''x''" by auto
  with l show ?thesis by simp
qed

text \<open>
  C7, amended. For a text shorter than \<open>2^31\<close> characters and a width whose distance
  \<open>width - length\<close> is not below \<open>-2^31\<close>, so that the 32-bit subtraction does not
  overflow, \<open>formatColumn\<close> appends spaces, one at a time, until the text is as long as the
  width, and returns a text that is already as long as the width or longer unchanged.
  The text is never cut, whatever the width. \<open>formatColumn("abc", 6)\<close> is \<open>"abc   "\<close> and
  \<open>formatColumn("abcdef", 3)\<close> is \<open>"abcdef"\<close>.
\<close>

theorem formatColumn_pads:
  "(int (length s) < 2 ^ 31 \<and> - (2 ^ 31) \<le> sint w - int (length s) \<longrightarrow>
      formatColumn s w = s @ replicate (nat (sint w - int (length s))) (CHR '' '') \<and>
      int (length (formatColumn s w)) = max (sint w) (int (length s)) \<and>
      (sint w \<le> int (length s) \<longrightarrow> formatColumn s w = s)) \<and>
   prefix s (formatColumn s w) \<and>
   formatColumn ''abc'' 6 = ''abc   '' \<and>
   formatColumn ''abcdef'' 3 = ''abcdef''"
proof (intro conjI impI)
  assume r: "int (length s) < 2 ^ 31 \<and> - (2 ^ 31) \<le> sint w - int (length s)"
  then have d: "sint (w - word_of_nat (length s)) = sint w - int (length s)"
    by (simp add: sint_diff_length)
  then show eq: "formatColumn s w = s @ replicate (nat (sint w - int (length s))) (CHR '' '')"
    by (simp add: formatColumn_eq)
  then show "int (length (formatColumn s w)) = max (sint w) (int (length s))" by simp
  assume "sint w \<le> int (length s)"
  with eq show "formatColumn s w = s" by simp
next
  show "prefix s (formatColumn s w)" by (simp add: formatColumn_eq)
  show "formatColumn ''abc'' 6 = ''abc   ''" by (simp add: formatColumn.simps)
  show "formatColumn ''abcdef'' 3 = ''abcdef''" by (simp add: formatColumn.simps)
qed

theorem formatColumn_pads_witness:
  "int (length ''abcdef'') < 2 ^ 31 \<and>
   - (2 ^ 31) \<le> sint (3 :: i32) - int (length ''abcdef'') \<and>
   sint (3 :: i32) \<le> int (length ''abcdef'') \<and>
   formatColumn ''abcdef'' 3 = ''abcdef'' \<and>
   int (length ''ab'') < 2 ^ 31 \<and>
   - (2 ^ 31) \<le> sint (5 :: i32) - int (length ''ab'') \<and>
   formatColumn ''ab'' 5 = ''ab   ''"
  using formatColumn_pads [of "''abcdef''" 3] formatColumn_pads [of "''ab''" 5]
  by (simp add: numeral_eq_Suc)

subsection \<open>The trace row\<close>

lemma print_loop_done: "\<not> i < len \<Longrightarrow> print_loop buf pos len i acc = Inr acc"
  by (subst print_loop.simps) simp

lemma print_loop_step:
  "i < len \<Longrightarrow>
   print_loop buf pos len i acc =
     (case read_byte buf (pos + i) of
        Inl err \<Rightarrow> Inl err
      | Inr b \<Rightarrow> print_loop buf pos len (i + 1) (acc @ to_hex_byte b @ '' ''))"
  by (subst print_loop.simps) simp

lemma to_hex_byte_length: "length (to_hex_byte b) = 2"
  by (simp add: to_hex_byte_def)

lemma print_loop_length:
  "print_loop buf pos len i acc = Inr r \<Longrightarrow> length r = length acc + 3 * nat (len - i)"
proof (induction buf pos len i acc arbitrary: r rule: print_loop.induct)
  case (1 buf pos len i content)
  show ?case
  proof (cases "i < len")
    case False
    with "1.prems" show ?thesis by (simp add: print_loop_done)
  next
    case True
    with "1.prems" obtain b where b: "read_byte buf (pos + i) = Inr b"
      and rest: "print_loop buf pos len (i + 1) (content @ to_hex_byte b @ '' '') = Inr r"
      by (auto simp: print_loop_step split: sum.splits)
    from "1.IH" [OF True b rest] True show ?thesis
      by (simp add: to_hex_byte_length nat_diff_distrib)
  qed
qed

lemma print_loop_error:
  "print_loop buf pos len i acc = Inl err \<Longrightarrow> err = read_outside_buffer"
proof (induction buf pos len i acc rule: print_loop.induct)
  case (1 buf pos len i content)
  show ?case
  proof (cases "i < len")
    case False
    with "1.prems" show ?thesis by (simp add: print_loop_done)
  next
    case True
    show ?thesis
    proof (cases "read_byte buf (pos + i)")
      case (Inl a)
      with True "1.prems" show ?thesis
        by (simp add: print_loop_step read_byte_def split: if_splits)
    next
      case (Inr b)
      with True "1.prems" "1.IH" [OF True Inr] show ?thesis
        by (simp add: print_loop_step)
    qed
  qed
qed

lemma print_loop_window:
  assumes "0 \<le> pos" "0 \<le> i" "i \<le> len" "pos + len \<le> int (length buf)"
  shows "print_loop buf pos len i acc =
     Inr (acc @ concat (map (\<lambda>b. to_hex_byte b @ '' '')
                          (take (nat (len - i)) (drop (nat (pos + i)) buf))))"
  using assms
proof (induction buf pos len i acc rule: print_loop.induct)
  case (1 buf pos len i content)
  show ?case
  proof (cases "i < len")
    case False
    with "1.prems" show ?thesis by (simp add: print_loop_done)
  next
    case True
    with "1.prems" have inb: "nat (pos + i) < length buf" by linarith
    with "1.prems" have rd: "read_byte buf (pos + i) = Inr (buf ! nat (pos + i))"
      by (simp add: read_byte_def)
    from True have n: "nat (len - i) = Suc (nat (len - (i + 1)))" by simp
    from "1.prems" have p: "nat (pos + (i + 1)) = Suc (nat (pos + i))" by simp
    have win: "take (nat (len - i)) (drop (nat (pos + i)) buf) =
      buf ! nat (pos + i) # take (nat (len - (i + 1))) (drop (nat (pos + (i + 1))) buf)"
      unfolding n p using inb by (simp add: Cons_nth_drop_Suc [symmetric])
    from "1.prems" True have "print_loop buf pos len (i + 1)
        (content @ to_hex_byte (buf ! nat (pos + i)) @ '' '') =
      Inr ((content @ to_hex_byte (buf ! nat (pos + i)) @ '' '') @
        concat (map (\<lambda>b. to_hex_byte b @ '' '')
          (take (nat (len - (i + 1))) (drop (nat (pos + (i + 1))) buf))))"
      by (intro "1.IH" [OF True rd]) simp_all
    with True rd show ?thesis by (simp add: print_loop_step win)
  qed
qed

lemma print_truncate_long:
  assumes "39 < length content"
  shows "print_truncate content =
           Inr (take 27 content @ ''[...]'' @ drop (27 + (length content - 34)) content)"
proof -
  from assms have "min (length content - 34) (length content - 27) = length content - 34"
    by simp
  with assms show ?thesis by (simp add: print_truncate_def string_replace_def)
qed

lemma print_truncate_short: "length content \<le> 39 \<Longrightarrow> print_truncate content = Inr content"
  by (simp add: print_truncate_def)

lemma digit_in: "n < 10 \<Longrightarrow> ''0123456789'' ! n \<in> set ''0123456789''"
  by (rule nth_mem) simp

lemma bracket_decimal: "CHR ''['' \<notin> set (decimal n)"
proof (induction n rule: decimal.induct)
  case (1 n)
  show ?case
  proof (cases "n < 10")
    case True
    from digit_in [OF True] have "''0123456789'' ! n \<noteq> CHR ''[''" by auto
    with True show ?thesis by (subst decimal.simps) simp
  next
    case False
    have "n mod 10 < 10" by simp
    from digit_in [OF this] have "''0123456789'' ! (n mod 10) \<noteq> CHR ''[''" by auto
    with False "1.IH" show ?thesis by (subst decimal.simps) simp
  qed
qed

lemma bracket_to_string: "CHR ''['' \<notin> set (to_string i)"
  by (simp add: to_string_def bracket_decimal)

lemma bracket_formatColumn: "CHR ''['' \<notin> set s \<Longrightarrow> CHR ''['' \<notin> set (formatColumn s w)"
  by (simp add: formatColumn_eq)

lemma bracket_getEventName: "CHR ''['' \<notin> set (getEventName c e)"
  by (simp add: getEventName_def)

lemma bracket_getNoteName: "CHR ''['' \<notin> set (getNoteName e)"
  by (simp add: getNoteName_def Let_def bracket_to_string)

lemma hex_in: "n < 16 \<Longrightarrow> ''0123456789abcdef'' ! n \<in> set ''0123456789abcdef''"
  by (rule nth_mem) simp

lemma bracket_to_hex_byte: "CHR ''['' \<notin> set (to_hex_byte b)"
proof -
  have "unat b < 256" using unsigned_less [of b] by simp
  then have "unat b div 16 < 16" by simp
  from hex_in [OF this] have 1: "''0123456789abcdef'' ! (unat b div 16) \<noteq> CHR ''[''" by auto
  have "unat b mod 16 < 16" by simp
  from hex_in [OF this] have 2: "''0123456789abcdef'' ! (unat b mod 16) \<noteq> CHR ''[''" by auto
  from 1 2 show ?thesis by (simp add: to_hex_byte_def)
qed

lemma bracket_print_loop:
  "print_loop buf pos len i acc = Inr r \<Longrightarrow> CHR ''['' \<notin> set acc \<Longrightarrow> CHR ''['' \<notin> set r"
proof (induction buf pos len i acc arbitrary: r rule: print_loop.induct)
  case (1 buf pos len i content)
  show ?case
  proof (cases "i < len")
    case False
    with "1.prems" show ?thesis by (simp add: print_loop_done)
  next
    case True
    with "1.prems" obtain b where b: "read_byte buf (pos + i) = Inr b"
      and rest: "print_loop buf pos len (i + 1) (content @ to_hex_byte b @ '' '') = Inr r"
      by (auto simp: print_loop_step split: sum.splits)
    from "1.prems" have "CHR ''['' \<notin> set (content @ to_hex_byte b @ '' '')"
      by (simp add: bracket_to_hex_byte)
    with "1.IH" [OF True b rest] show ?thesis by simp
  qed
qed

lemma bracket_print_row:
  assumes "CHR ''['' \<notin> set (h (word_of_int pos))" and "CHR ''['' \<notin> set content"
  shows "CHR ''['' \<notin> set (print_row c h e pos content)"
  using assms
  by (simp add: print_row_def bracket_formatColumn bracket_to_string bracket_getEventName
      bracket_getNoteName)

lemma no_marker: "CHR ''['' \<notin> set s \<Longrightarrow> \<not> sublist ''[...]'' s"
proof
  assume a: "CHR ''['' \<notin> set s" and b: "sublist ''[...]'' s"
  from b have "set ''[...]'' \<subseteq> set s" by (rule set_mono_sublist)
  with a show False by simp
qed

lemma sublist_after: "sublist x l \<Longrightarrow> sublist x (p @ l)"
proof -
  assume "sublist x l"
  then obtain ps ss where "l = ps @ x @ ss" by (auto simp: sublist_def)
  then have "p @ l = (p @ ps) @ x @ ss" by simp
  then show ?thesis by (simp only: sublist_appendI)
qed

lemma print_content_length:
  "print_content buf pos len = Inr content \<Longrightarrow> length content = 3 * nat len"
  using print_loop_length [of buf pos len 0 "[]" content] by (simp add: print_content_def)

lemma print_content_error:
  "print_content buf pos len = Inl err \<Longrightarrow> err = read_outside_buffer"
  using print_loop_error [of buf pos len 0 "[]" err] by (simp add: print_content_def)

lemma print_content_window:
  assumes "0 \<le> pos" "0 \<le> len" "pos + len \<le> int (length buf)"
  shows "print_content buf pos len =
     Inr (concat (map (\<lambda>b. to_hex_byte b @ '' '') (take (nat len) (drop (nat pos) buf))))"
  using print_loop_window [of pos 0 len buf "[]"] assms by (simp add: print_content_def)

lemma bracket_print_content:
  "print_content buf pos len = Inr content \<Longrightarrow> CHR ''['' \<notin> set content"
  using bracket_print_loop [of buf pos len 0 "[]" content] by (simp add: print_content_def)

lemma window3:
  assumes "take 3 (drop 16 buf) = [a, b, d]"
  shows "(16::int) + 3 \<le> int (length buf)"
proof -
  from assms have "length (take 3 (drop 16 buf)) = 3" by simp
  then show ?thesis by simp
qed


text \<open>
  C5. When the hex dump assembled from the raw bytes has at most 39 characters, \<open>print\<close>
  puts it into the row unchanged: the hex-dump column holds no \<open>[...]\<close>, and neither does
  the row when the offset column holds no \<open>[\<close>. When the dump is longer, \<open>print\<close> replaces
  the \<open>length - 34\<close> characters from index 27 by \<open>[...]\<close>, so the marker stands at index
  27 of the column.
\<close>

theorem print_hex_dump_truncation:
  assumes "print_content buf pos len = Inr content"
  shows
    "(length content \<le> 39 \<longrightarrow>
        print c h e pos buf len = Inr (print_row c h e pos content) \<and>
        \<not> sublist ''[...]'' (formatColumn content 39) \<and>
        (CHR ''['' \<notin> set (h (word_of_int pos)) \<longrightarrow>
           \<not> sublist ''[...]'' (print_row c h e pos content))) \<and>
     (39 < length content \<longrightarrow>
        print c h e pos buf len =
          Inr (print_row c h e pos
                 (take 27 content @ ''[...]'' @ drop (27 + (length content - 34)) content)) \<and>
        take 5 (drop 27 (formatColumn
          (take 27 content @ ''[...]'' @ drop (27 + (length content - 34)) content) 39)) =
          ''[...]'')"
proof (intro conjI impI)
  assume short: "length content \<le> 39"
  with assms show "print c h e pos buf len = Inr (print_row c h e pos content)"
    by (simp add: print_def print_truncate_short)
  from assms have nb: "CHR ''['' \<notin> set content" by (rule bracket_print_content)
  then show "\<not> sublist ''[...]'' (formatColumn content 39)"
    by (intro no_marker bracket_formatColumn)
  assume "CHR ''['' \<notin> set (h (word_of_int pos))"
  from this nb show "\<not> sublist ''[...]'' (print_row c h e pos content)"
    by (intro no_marker bracket_print_row)
next
  assume long: "39 < length content"
  with assms show "print c h e pos buf len =
      Inr (print_row c h e pos
             (take 27 content @ ''[...]'' @ drop (27 + (length content - 34)) content))"
    by (simp add: print_def print_truncate_long)
  from long show "take 5 (drop 27 (formatColumn
      (take 27 content @ ''[...]'' @ drop (27 + (length content - 34)) content) 39)) = ''[...]''"
    by (simp add: formatColumn_eq)
qed


theorem print_hex_dump_truncation_witness:
  "print_content [0x90, 0x3C, 0x64] 0 3 = Inr ''90 3c 64 '' \<and>
   length ''90 3c 64 '' \<le> 39 \<and>
   print midi_types (\<lambda>w. ''0x0000'')
     \<lparr>type = 0x90, meta = False, note = 60, velocity = 100, tempo = 0, totalTime = 480,
        delta = 480\<rparr> 0 [0x90, 0x3C, 0x64] 3 =
     Inr ''0x0000 | 90 3c 64                               | 480    | 480    | Note on                   | Channel 0  | Note C4  at velocity 100'' \<and>
   \<not> sublist ''[...]''
     ''0x0000 | 90 3c 64                               | 480    | 480    | Note on                   | Channel 0  | Note C4  at velocity 100'' \<and>
   print_content [0, 0, 0, 0, 0, 0, 0, 0, 0, 0, 0, 0, 0, 0] 0 14 =
     Inr ''00 00 00 00 00 00 00 00 00 00 00 00 00 00 '' \<and>
   39 < length ''00 00 00 00 00 00 00 00 00 00 00 00 00 00 '' \<and>
   print midi_types (\<lambda>w. ''0x0000'')
     \<lparr>type = 0x90, meta = False, note = 60, velocity = 100, tempo = 0, totalTime = 480,
        delta = 480\<rparr> 0 [0, 0, 0, 0, 0, 0, 0, 0, 0, 0, 0, 0, 0, 0] 14 =
     Inr ''0x0000 | 00 00 00 00 00 00 00 00 00 [...] 00 00 | 480    | 480    | Note on                   | Channel 0  | Note C4  at velocity 100''"
proof -
  let ?e = "\<lparr>type = 0x90, meta = False, note = 60, velocity = 100, tempo = 0, totalTime = 480,
        delta = 480\<rparr>"
  have a: "print_content [0x90, 0x3C, 0x64] 0 3 = Inr ''90 3c 64 ''"
    by (simp add: print_content_def print_loop.simps read_byte_def to_hex_byte_def)
  have b: "print_content [0, 0, 0, 0, 0, 0, 0, 0, 0, 0, 0, 0, 0, 0] 0 14 =
      Inr ''00 00 00 00 00 00 00 00 00 00 00 00 00 00 ''"
    by (simp add: print_content_def print_loop.simps read_byte_def to_hex_byte_def)
  have on: "NOTE_ON midi_types = 0x90" by (simp add: midi_types_def)
  have name: "getEventName midi_types ?e = ''Note on''"
    by (simp add: getEventName_def midi_types_def)
  have pitch: "getNoteName ?e = ''C4''"
    by (simp add: getNoteName_def to_string_def decimal.simps)
  have nums: "to_string 0 = ''0''" "to_string 100 = ''100''" "to_string 480 = ''480''"
    by (simp_all add: to_string_def decimal.simps)
  have rows:
    "print_row midi_types (\<lambda>w. ''0x0000'') ?e 0 ''90 3c 64 '' =
       ''0x0000 | 90 3c 64                               | 480    | 480    | Note on                   | Channel 0  | Note C4  at velocity 100''"
    "print_row midi_types (\<lambda>w. ''0x0000'') ?e 0
       ''00 00 00 00 00 00 00 00 00 [...] 00 00 '' =
       ''0x0000 | 00 00 00 00 00 00 00 00 00 [...] 00 00 | 480    | 480    | Note on                   | Channel 0  | Note C4  at velocity 100''"
    by (simp_all add: print_row_def name pitch nums getChannel_def on
        formatColumn.simps [of "_ # _"])
  from print_hex_dump_truncation [OF a, of midi_types "\<lambda>w. ''0x0000''" ?e]
    print_hex_dump_truncation [OF b, of midi_types "\<lambda>w. ''0x0000''" ?e]
  show ?thesis by (simp add: a b rows)
qed

text \<open>
  C10 (spec-modelled byte formatter). Every raw byte contributes three characters to the
  hex dump, two hex digits and a space. So a dump longer than 39 characters has at least
  42: index 27 lies inside it, the count \<open>length - 34\<close> is at least 8, and the dump
  after the replacement, like the padded column, has exactly 39 characters. \<open>print\<close> never
  ends with the \<open>out_of_range\<close> error of \<open>replace\<close>, and returns a row whenever the
  window lies inside the buffer.
\<close>

theorem print_replace_in_range:
  "length (to_hex_byte b @ '' '') = 3 \<and>
   (0 \<le> pos \<and> 0 \<le> len \<and> pos + len \<le> int (length buf) \<longrightarrow>
      print_content buf pos len =
        Inr (concat (map (\<lambda>b. to_hex_byte b @ '' '') (take (nat len) (drop (nat pos) buf))))) \<and>
   (print_content buf pos len = Inr content \<longrightarrow>
      length content = 3 * nat len \<and>
      (39 < length content \<longrightarrow>
         42 \<le> length content \<and> 27 < length content \<and> 8 \<le> length content - 34 \<and>
         (\<exists>shown. print_truncate content = Inr shown \<and> length shown = 39 \<and>
            length (formatColumn shown 39) = 39))) \<and>
   print c h e pos buf len \<noteq> Inl out_of_range \<and>
   (0 \<le> pos \<and> pos + len \<le> int (length buf) \<longrightarrow> (\<exists>row. print c h e pos buf len = Inr row))"
proof (intro conjI impI)
  show "length (to_hex_byte b @ '' '') = 3" by (simp add: to_hex_byte_length)
next
  assume "0 \<le> pos \<and> 0 \<le> len \<and> pos + len \<le> int (length buf)"
  then show "print_content buf pos len =
      Inr (concat (map (\<lambda>b. to_hex_byte b @ '' '') (take (nat len) (drop (nat pos) buf))))"
    by (simp add: print_content_window)
next
  assume pc: "print_content buf pos len = Inr content"
  then show len3: "length content = 3 * nat len" by (rule print_content_length)
  assume long: "39 < length content"
  have "\<not> nat len \<le> 13"
  proof
    assume "nat len \<le> 13"
    then have "3 * nat len \<le> 39" by simp
    with len3 long show False by simp
  qed
  then have "14 \<le> nat len" by simp
  then have "42 \<le> 3 * nat len" by simp
  with len3 show "42 \<le> length content" by simp
  then show "27 < length content" "8 \<le> length content - 34" by simp_all
  from long have "length (take 27 content @ ''[...]'' @
      drop (27 + (length content - 34)) content) = 39" by simp
  with long show "\<exists>shown. print_truncate content = Inr shown \<and> length shown = 39 \<and>
      length (formatColumn shown 39) = 39"
    by (simp add: print_truncate_long formatColumn_eq)
next
  show "print c h e pos buf len \<noteq> Inl out_of_range"
  proof (cases "print_content buf pos len")
    case (Inl err)
    then have "err = read_outside_buffer" by (rule print_content_error)
    with Inl show ?thesis by (simp add: print_def)
  next
    case (Inr content)
    then show ?thesis
      by (cases "39 < length content")
        (simp_all add: print_def print_truncate_long print_truncate_short)
  qed
next
  assume w: "0 \<le> pos \<and> pos + len \<le> int (length buf)"
  have "\<exists>content. print_content buf pos len = Inr content"
  proof (cases "0 \<le> len")
    case True
    with w show ?thesis by (simp add: print_content_window)
  next
    case False
    then show ?thesis by (simp add: print_content_def print_loop_done)
  qed
  then obtain content where pc: "print_content buf pos len = Inr content" ..
  then show "\<exists>row. print c h e pos buf len = Inr row"
    by (cases "39 < length content")
      (simp_all add: print_def print_truncate_long print_truncate_short)
qed


theorem print_replace_in_range_witness:
  "print_content [0, 0, 0, 0, 0, 0, 0, 0, 0, 0, 0, 0, 0, 0] 0 14 =
     Inr ''00 00 00 00 00 00 00 00 00 00 00 00 00 00 '' \<and>
   length ''00 00 00 00 00 00 00 00 00 00 00 00 00 00 '' = 3 * nat 14 \<and>
   39 < length ''00 00 00 00 00 00 00 00 00 00 00 00 00 00 '' \<and>
   print_truncate ''00 00 00 00 00 00 00 00 00 00 00 00 00 00 '' =
     Inr ''00 00 00 00 00 00 00 00 00 [...] 00 00 '' \<and>
   length ''00 00 00 00 00 00 00 00 00 [...] 00 00 '' = 39 \<and>
   (0::int) \<le> 0 \<and> (0::int) + 14 \<le> int (length ([0, 0, 0, 0, 0, 0, 0, 0, 0, 0, 0, 0, 0, 0] :: u8 list)) \<and>
   print midi_types (\<lambda>w. ''0x0000'')
     \<lparr>type = 0x90, meta = False, note = 60, velocity = 100, tempo = 0, totalTime = 480,
        delta = 480\<rparr> 0 [0, 0, 0, 0, 0, 0, 0, 0, 0, 0, 0, 0, 0, 0] 14 \<noteq> Inl out_of_range \<and>
   (\<exists>row. print midi_types (\<lambda>w. ''0x0000'')
     \<lparr>type = 0x90, meta = False, note = 60, velocity = 100, tempo = 0, totalTime = 480,
        delta = 480\<rparr> 0 [0, 0, 0, 0, 0, 0, 0, 0, 0, 0, 0, 0, 0, 0] 14 = Inr row)"
proof -
  have b: "print_content [0, 0, 0, 0, 0, 0, 0, 0, 0, 0, 0, 0, 0, 0] 0 14 =
      Inr ''00 00 00 00 00 00 00 00 00 00 00 00 00 00 ''"
    by (simp add: print_content_def print_loop.simps read_byte_def to_hex_byte_def)
  have t: "print_truncate ''00 00 00 00 00 00 00 00 00 00 00 00 00 00 '' =
      Inr ''00 00 00 00 00 00 00 00 00 [...] 00 00 ''"
    by (simp add: print_truncate_def string_replace_def)
  from print_replace_in_range [of 0 0 14 "[0, 0, 0, 0, 0, 0, 0, 0, 0, 0, 0, 0, 0, 0]"
      "''00 00 00 00 00 00 00 00 00 00 00 00 00 00 ''" midi_types
      "\<lambda>w. ''0x0000''"
      "\<lparr>type = 0x90, meta = False, note = 60, velocity = 100, tempo = 0, totalTime = 480,
        delta = 480\<rparr>"]
  show ?thesis by (simp add: b t)
qed

text \<open>
  C8 (spec-modelled byte formatter). For the event with type \<open>0x90\<close>, \<open>meta\<close> false,
  note 60, velocity 100, \<open>totalTime\<close> 480 and \<open>delta\<close> 480, printed at offset \<open>0x10\<close>
  over the three bytes \<open>0x90 0x3C 0x64\<close>, the row handed to the logger is the offset
  column followed by the text below; it contains "Note on", "Channel 0", "Note C4",
  "at velocity 100" and "90 3c 64". NOTE_ON is \<open>0x90\<close> and the labels of the
  \<open>switch\<close> are pairwise different.
\<close>

theorem print_note_on_row:
  assumes "NOTE_ON c = 0x90" and "distinct (name_labels c)"
    and "take 3 (drop 16 buf) = [0x90, 0x3C, 0x64]"
  shows
    "\<exists>row.
       print c h \<lparr>type = 0x90, meta = False, note = 60, velocity = 100, tempo = t,
                  totalTime = 480, delta = 480\<rparr> 0x10 buf 3 = Inr row \<and>
       row = formatColumn (h 0x10) 6 @
         '' | 90 3c 64                               | 480    | 480    | Note on                   | Channel 0  | Note C4  at velocity 100'' \<and>
       sublist ''Note on'' row \<and> sublist ''Channel 0'' row \<and> sublist ''Note C4'' row \<and>
       sublist ''at velocity 100'' row \<and> sublist ''90 3c 64'' row"
proof -
  let ?e = "\<lparr>type = 0x90, meta = False, note = 60, velocity = 100, tempo = t,
             totalTime = 480, delta = 480\<rparr>"
  let ?l = "'' | 90 3c 64                               | 480    | 480    | Note on                   | Channel 0  | Note C4  at velocity 100''"
  from assms(2) have "NOTE_OFF c \<noteq> NOTE_ON c" by (simp add: name_labels_def)
  with assms(1) have off: "0x90 \<noteq> NOTE_OFF c" by auto
  from assms(1) have on: "NOTE_ON c = 144" by simp
  from window3 [OF assms(3)] assms(3)
  have content: "print_content buf 0x10 3 = Inr ''90 3c 64 ''"
    by (simp add: print_content_window to_hex_byte_def)
  have name: "getEventName c ?e = ''Note on''"
    using off on by (simp add: getEventName_def)
  have pitch: "getNoteName ?e = ''C4''"
    by (simp add: getNoteName_def to_string_def decimal.simps)
  have chan: "to_string (getChannel ?e) = ''0''"
    by (simp add: getChannel_def to_string_def decimal.simps)
  have vel: "to_string 100 = ''100''"
    by (simp add: to_string_def decimal.simps)
  have tim: "to_string 480 = ''480''"
    by (simp add: to_string_def decimal.simps)
  have row: "print_row c h ?e 0x10 ''90 3c 64 '' = formatColumn (h 0x10) 6 @ ?l"
    using on by (simp add: print_row_def name pitch chan vel tim formatColumn.simps [of "_ # _"])
  have pr: "print c h ?e 0x10 buf 3 = Inr (formatColumn (h 0x10) 6 @ ?l)"
    by (simp add: print_def content print_truncate_def row)
  have "sublist ''Note on'' ?l" "sublist ''Channel 0'' ?l" "sublist ''Note C4'' ?l"
    "sublist ''at velocity 100'' ?l" "sublist ''90 3c 64'' ?l"
    by (simp_all add: sublist_Cons_right)
  then have "sublist ''Note on'' (formatColumn (h 0x10) 6 @ ?l)"
    "sublist ''Channel 0'' (formatColumn (h 0x10) 6 @ ?l)"
    "sublist ''Note C4'' (formatColumn (h 0x10) 6 @ ?l)"
    "sublist ''at velocity 100'' (formatColumn (h 0x10) 6 @ ?l)"
    "sublist ''90 3c 64'' (formatColumn (h 0x10) 6 @ ?l)"
    by (simp_all add: sublist_after)
  with pr show ?thesis by blast
qed

theorem print_note_on_row_witness:
  "NOTE_ON midi_types = 0x90 \<and> distinct (name_labels midi_types) \<and>
   take 3 (drop 16 ([0, 0, 0, 0, 0, 0, 0, 0, 0, 0, 0, 0, 0, 0, 0, 0, 0x90, 0x3C, 0x64] :: u8 list)) = [0x90, 0x3C, 0x64] \<and>
   print midi_types (\<lambda>w. ''0x0010'')
     \<lparr>type = 0x90, meta = False, note = 60, velocity = 100, tempo = 0, totalTime = 480,
        delta = 480\<rparr> 0x10 [0, 0, 0, 0, 0, 0, 0, 0, 0, 0, 0, 0, 0, 0, 0, 0, 0x90, 0x3C, 0x64] 3 =
     Inr ''0x0010 | 90 3c 64                               | 480    | 480    | Note on                   | Channel 0  | Note C4  at velocity 100''"
proof -
  have on: "NOTE_ON midi_types = 0x90" by (simp add: midi_types_def)
  have win: "take 3 (drop 16 ([0, 0, 0, 0, 0, 0, 0, 0, 0, 0, 0, 0, 0, 0, 0, 0, 0x90, 0x3C, 0x64] :: u8 list)) = [0x90, 0x3C, 0x64]"
    by simp
  from print_note_on_row [OF on midi_types_distinct win, of "\<lambda>w. ''0x0010''" 0]
  show ?thesis by (simp add: on midi_types_distinct formatColumn.simps [of "_ # _"])
qed

end
